theory Spec2Isabelle
  imports Main "HOL-Library.Word"
begin

unbundle bit_operations_syntax

section \<open>Constant tables of hd44780-driver.js\<close>

text \<open>The opcode and flag objects \<^verbatim>\<open>command\<close>, \<^verbatim>\<open>entryModeFlags\<close>, \<^verbatim>\<open>controlFlags\<close>
  and \<^verbatim>\<open>functionSetFlags\<close>; only the members the driver reads are listed.\<close>

definition CLEARDISPLAY :: int where "CLEARDISPLAY = 0x01"
definition ENTRYMODESET :: int where "ENTRYMODESET = 0x04"
definition DISPLAYCONTROL :: int where "DISPLAYCONTROL = 0x08"
definition FUNCTIONSET :: int where "FUNCTIONSET = 0x20"
definition SETDDRAMADDR :: int where "SETDDRAMADDR = 0x80"

definition ENTRYLEFT :: int where "ENTRYLEFT = 0x02"
definition ENTRYSHIFTDECREMENT :: int where "ENTRYSHIFTDECREMENT = 0x00"

definition DISPLAYON :: int where "DISPLAYON = 0x04"
definition CURSOROFF :: int where "CURSOROFF = 0x00"
definition BLINKOFF :: int where "BLINKOFF = 0x00"

definition FOURBITMODE :: int where "FOURBITMODE = 0x00"
definition TWOLINE :: int where "TWOLINE = 0x08"
definition FIVEBYEIGHTDOTS :: int where "FIVEBYEIGHTDOTS = 0x00"

definition ROWOFFSETS :: "int list" where
  "ROWOFFSETS = [0x00, 0x40, 0x14, 0x54]"

section \<open>JavaScript numbers and strings\<close>

text \<open>A JavaScript number that holds an integer is an \<^typ>\<open>int\<close>. The bitwise operators
  first convert each operand to a signed 32-bit integer; the shift count of \<^verbatim>\<open>>>\<close> is
  taken modulo 32 and the shift propagates the sign.\<close>

definition ToInt32 :: "int \<Rightarrow> int" where
  "ToInt32 k = signed_take_bit 31 k"

definition js_or :: "int \<Rightarrow> int \<Rightarrow> int" where
  "js_or a b = ToInt32 a OR ToInt32 b"

definition js_and :: "int \<Rightarrow> int \<Rightarrow> int" where
  "js_and a b = ToInt32 a AND ToInt32 b"

definition js_shr :: "int \<Rightarrow> nat \<Rightarrow> int" where
  "js_shr a n = drop_bit (n mod 32) (ToInt32 a)"

text \<open>Numbers are IEEE binary64 values, so \<^verbatim>\<open>+\<close> on two integers gives their sum rounded
  to 53 significant bits, ties to the even significand. Below \<open>2 ^ 53\<close> in absolute value
  the sum is exact. (An integer too large for a binary64 value is not a number of the
  language.)\<close>

fun bit_length :: "nat \<Rightarrow> nat" where
  "bit_length n = (if n = 0 then 0 else Suc (bit_length (n div 2)))"

declare bit_length.simps [simp del]

definition round_double :: "int \<Rightarrow> int" where
  "round_double x =
     (let m = nat \<bar>x\<bar>;
          e = bit_length m - 53;
          q = m div 2 ^ e;
          r = m mod 2 ^ e;
          q' = (if 2 * r > 2 ^ e \<or> (2 * r = 2 ^ e \<and> odd q) then q + 1 else q)
      in sgn x * int (q' * 2 ^ e))"

definition js_plus :: "int \<Rightarrow> int \<Rightarrow> int" where
  "js_plus a b = round_double (a + b)"

text \<open>Indexing an array with an integer: \<^verbatim>\<open>undefined\<close> (here \<open>None\<close>) outside the array.\<close>

definition js_index :: "'a list \<Rightarrow> int \<Rightarrow> 'a option" where
  "js_index xs i = (if 0 \<le> i \<and> nat i < length xs then Some (xs ! nat i) else None)"

text \<open>A string is its sequence of UTF-16 code units. \<^verbatim>\<open>Array.from(str)\<close> iterates by code
  point: a high surrogate followed by a low surrogate is one element of two units, every
  other unit is an element of its own. \<^verbatim>\<open>charCodeAt(0)\<close> is the first unit of an element.\<close>

type_synonym jsstring = "16 word list"

datatype jschar = Unit "16 word" | Pair "16 word" "16 word"

definition is_high_surrogate :: "16 word \<Rightarrow> bool" where
  "is_high_surrogate u = (0xD800 \<le> u \<and> u \<le> 0xDBFF)"

definition is_low_surrogate :: "16 word \<Rightarrow> bool" where
  "is_low_surrogate u = (0xDC00 \<le> u \<and> u \<le> 0xDFFF)"

fun Array_from :: "jsstring \<Rightarrow> jschar list" where
  "Array_from [] = []"
| "Array_from [u] = [Unit u]"
| "Array_from (h # l # rest) =
     (if is_high_surrogate h \<and> is_low_surrogate l then Pair h l # Array_from rest
      else Unit h # Array_from (l # rest))"

fun charCodeAt0 :: "jschar \<Rightarrow> int" where
  "charCodeAt0 (Unit u) = uint u"
| "charCodeAt0 (Pair h l) = uint h"

definition newline :: jschar where
  "newline = Unit 0x0A"

section \<open>The GPIO collaborator (module rpio)\<close>

text \<open>The driver reaches the hardware only through \<^verbatim>\<open>rpio.open\<close>, \<^verbatim>\<open>rpio.write\<close> and
  \<^verbatim>\<open>rpio.usleep\<close>. The model records every call in a log, in the order of the calls. A pin
  argument is a pin number or \<^verbatim>\<open>undefined\<close> (\<open>None\<close>). \<^verbatim>\<open>rpio.LOW\<close>, \<^verbatim>\<open>rpio.HIGH\<close> and
  \<^verbatim>\<open>rpio.OUTPUT\<close> are the numbers that module exports.\<close>

type_synonym pin = nat

datatype event =
    is_Open: Open "pin option" int int
  | is_Write: Write "pin option" int
  | is_Usleep: Usleep nat

definition rpio_LOW :: int where "rpio_LOW = 0"
definition rpio_HIGH :: int where "rpio_HIGH = 1"
definition rpio_OUTPUT :: int where "rpio_OUTPUT = 1"

datatype error = GpioError | TypeError

text \<open>\<^verbatim>\<open>rpio.open\<close> throws for a pin the platform does not accept; which pins those are is
  the parameter \<open>ok\<close>. The result is the exception, if any, and the log afterwards.\<close>

definition rpio_open :: "(pin option \<Rightarrow> bool) \<Rightarrow> pin option \<Rightarrow> int \<Rightarrow> int \<Rightarrow> event list
    \<Rightarrow> error option \<times> event list" where
  "rpio_open ok p mode init g =
     (if ok p then (None, g @ [Open p mode init]) else (Some GpioError, g))"

section \<open>The driver object\<close>

record config =
  config_pinRs :: "pin option"
  config_pinEnable :: "pin option"
  config_pinsData :: "pin list option"
  config_lcdColumns :: int
  config_lcdRows :: int

text \<open>The fields of \<^verbatim>\<open>this\<close>. An object leaves the constructor only after
  \<^verbatim>\<open>this.pinsData.forEach\<close> has run, so its \<^verbatim>\<open>pinsData\<close> is an array.\<close>

record lcd =
  this_pinRs :: "pin option"
  this_pinEnable :: "pin option"
  this_pinsData :: "pin list"
  this_lcdColumns :: int
  this_lcdRows :: int

text \<open>The state a method runs in: the object and the log of the calls to rpio.
  \<^verbatim>\<open>rpio.write\<close> and \<^verbatim>\<open>rpio.usleep\<close> are modelled for the calls that return: a write to
  a pin that \<^verbatim>\<open>rpio.open\<close> accepted. The real \<^verbatim>\<open>rpio.write\<close> throws for the pin
  \<^verbatim>\<open>undefined\<close>, which \<^verbatim>\<open>this.pinsData[i]\<close> is when the list has fewer than four pins;
  there the log shows a write to \<open>None\<close> where the real call throws, and no property below
  about the constructor's success is stated for such a list.\<close>

record world =
  obj :: lcd
  gpio :: "event list"

definition rpio_write :: "pin option \<Rightarrow> int \<Rightarrow> world \<Rightarrow> world" where
  "rpio_write p v w = w\<lparr>gpio := gpio w @ [Write p v]\<rparr>"

definition rpio_usleep :: "nat \<Rightarrow> world \<Rightarrow> world" where
  "rpio_usleep n w = w\<lparr>gpio := gpio w @ [Usleep n]\<rparr>"

text \<open>\<^verbatim>\<open>this.pinsData[i]\<close>\<close>

definition pinsData_at :: "lcd \<Rightarrow> nat \<Rightarrow> pin option" where
  "pinsData_at t i = js_index (this_pinsData t) (int i)"

subsection \<open>\<^verbatim>\<open>_pulseEnable\<close>\<close>

definition pulseEnable :: "world \<Rightarrow> world" where
  "pulseEnable w =
     (let w = rpio_write (this_pinEnable (obj w)) rpio_LOW w;
          w = rpio_usleep 1 w;
          w = rpio_write (this_pinEnable (obj w)) rpio_HIGH w;
          w = rpio_usleep 1 w;
          w = rpio_write (this_pinEnable (obj w)) rpio_LOW w;
          w = rpio_usleep 1 w
      in w)"

subsection \<open>\<^verbatim>\<open>_write8Bits\<close>\<close>

text \<open>The two \<^verbatim>\<open>for (i = 0; i < 4; i++)\<close> loops, entered at \<open>i = 0\<close>.\<close>

function write_upper :: "int \<Rightarrow> nat \<Rightarrow> world \<Rightarrow> world" where
  "write_upper v i w =
     (if i < 4
      then write_upper v (i + 1)
             (rpio_write (pinsData_at (obj w) i) (js_and (js_shr v (i + 4)) 1) w)
      else w)"
  by pat_completeness auto
termination
  by (relation "measure (\<lambda>(v, i, w). 4 - i)") auto

function write_lower :: "int \<Rightarrow> nat \<Rightarrow> world \<Rightarrow> world" where
  "write_lower v i w =
     (if i < 4
      then write_lower v (i + 1)
             (rpio_write (pinsData_at (obj w) i) (js_and (js_shr v i) 1) w)
      else w)"
  by pat_completeness auto
termination
  by (relation "measure (\<lambda>(v, i, w). 4 - i)") auto

declare write_upper.simps [simp del] write_lower.simps [simp del]

text \<open>The defaults \<^verbatim>\<open>registerSelect=false, writeWait=50, initWait=0\<close> are written out by
  every caller below.\<close>

definition write8Bits :: "int \<Rightarrow> bool \<Rightarrow> nat \<Rightarrow> nat \<Rightarrow> world \<Rightarrow> world" where
  "write8Bits v registerSelect writeWait initWait w =
     (let w = rpio_usleep writeWait w;
          w = (if registerSelect then rpio_write (this_pinRs (obj w)) rpio_HIGH w
               else rpio_write (this_pinRs (obj w)) rpio_LOW w);
          w = write_upper v 0 w;
          w = pulseEnable w;
          w = (if initWait \<noteq> 0 then rpio_usleep initWait w else w);
          w = write_lower v 0 w;
          w = pulseEnable w
      in w)"

subsection \<open>\<^verbatim>\<open>clear\<close>, \<^verbatim>\<open>setCursor\<close>, \<^verbatim>\<open>print\<close>\<close>

definition clear :: "world \<Rightarrow> world" where
  "clear w = write8Bits CLEARDISPLAY False 50 0 w"

text \<open>\<^verbatim>\<open>ROWOFFSETS[r]\<close> is \<^verbatim>\<open>undefined\<close> for \<open>r\<close> outside 0..3; then \<^verbatim>\<open>col + undefined\<close> is
  NaN, which \<^verbatim>\<open>|\<close> converts to 0. Otherwise \<^verbatim>\<open>col + ROWOFFSETS[r]\<close> is the rounded sum.
  \<^verbatim>\<open>this.lcdRows - 1\<close> is written as the exact difference: rounding changes it only beyond
  \<open>2 ^ 53\<close>, where \<open>r\<close> is outside 0..3 with or without rounding.\<close>

definition setCursor :: "int \<Rightarrow> int \<Rightarrow> world \<Rightarrow> world" where
  "setCursor col row w =
     (let r = (if row > this_lcdRows (obj w) - 1 then this_lcdRows (obj w) - 1 else row)
      in write8Bits
           (case js_index ROWOFFSETS r of
              Some off \<Rightarrow> js_or SETDDRAMADDR (js_plus col off)
            | None \<Rightarrow> js_or SETDDRAMADDR 0)
           False 50 0 w)"

text \<open>The body of \<^verbatim>\<open>forEach\<close> in \<^verbatim>\<open>print\<close>; \<open>row\<close> is the local variable it captures.\<close>

fun print_forEach :: "jschar list \<Rightarrow> int \<Rightarrow> world \<Rightarrow> world" where
  "print_forEach [] row w = w"
| "print_forEach (c # cs) row w =
     (if c = newline
      then print_forEach cs (row + 1) (setCursor 0 (row + 1) w)
      else print_forEach cs row (write8Bits (charCodeAt0 c) True 50 0 w))"

definition print :: "jsstring \<Rightarrow> world \<Rightarrow> world" where
  "print str w = print_forEach (Array_from str) 0 w"

subsection \<open>The constructor\<close>

text \<open>\<^verbatim>\<open>this.pinsData.forEach((pin) => rpio.open(pin, rpio.OUTPUT, rpio.LOW))\<close>: the first
  exception ends the loop.\<close>

fun open_forEach :: "(pin option \<Rightarrow> bool) \<Rightarrow> pin list \<Rightarrow> event list
    \<Rightarrow> error option \<times> event list" where
  "open_forEach ok [] g = (None, g)"
| "open_forEach ok (p # ps) g =
     (case rpio_open ok (Some p) rpio_OUTPUT rpio_LOW g of
        (Some e, g') \<Rightarrow> (Some e, g')
      | (None, g') \<Rightarrow> open_forEach ok ps g')"

text \<open>The instruction writes of the constructor, lines 80 to 88.\<close>

definition init_sequence :: "world \<Rightarrow> world" where
  "init_sequence w =
     (let w = write8Bits 0x33 False 1 4100 w;
          w = write8Bits 0x32 False 1 100 w;
          w = write8Bits (js_or (js_or (js_or DISPLAYCONTROL DISPLAYON) CURSOROFF) BLINKOFF)
                False 50 0 w;
          w = write8Bits (js_or (js_or (js_or FUNCTIONSET FOURBITMODE) TWOLINE) FIVEBYEIGHTDOTS)
                False 50 0 w;
          w = write8Bits (js_or (js_or ENTRYMODESET ENTRYLEFT) ENTRYSHIFTDECREMENT)
                False 50 0 w;
          w = clear w
      in w)"

text \<open>The result is the new object or the exception thrown, and the log afterwards.
  Calling \<^verbatim>\<open>forEach\<close> on an absent \<^verbatim>\<open>pinsData\<close> is a TypeError.\<close>

definition constructor :: "(pin option \<Rightarrow> bool) \<Rightarrow> config \<Rightarrow> event list
    \<Rightarrow> (error + lcd) \<times> event list" where
  "constructor ok config g =
     (case rpio_open ok (config_pinRs config) rpio_OUTPUT rpio_LOW g of
        (Some e, g1) \<Rightarrow> (Inl e, g1)
      | (None, g1) \<Rightarrow>
     (case rpio_open ok (config_pinEnable config) rpio_OUTPUT rpio_LOW g1 of
        (Some e, g2) \<Rightarrow> (Inl e, g2)
      | (None, g2) \<Rightarrow>
     (case config_pinsData config of
        None \<Rightarrow> (Inl TypeError, g2)
      | Some ps \<Rightarrow>
     (case open_forEach ok ps g2 of
        (Some e, g3) \<Rightarrow> (Inl e, g3)
      | (None, g3) \<Rightarrow>
          (let this = \<lparr>this_pinRs = config_pinRs config,
                       this_pinEnable = config_pinEnable config,
                       this_pinsData = ps,
                       this_lcdColumns = config_lcdColumns config,
                       this_lcdRows = config_lcdRows config\<rparr>;
               w = init_sequence \<lparr>obj = this, gpio = g3\<rparr>
           in (Inr (obj w), gpio w))))))"

section \<open>The transfer as the specification describes it\<close>

text \<open>Section 4.6: the enable line goes low, high, low, each level held for 1 microsecond.
  Section 4.5: settle delay, register select, the high nibble on the four data pins (pin
  index \<open>i\<close> carries bit \<open>i + 4\<close>), an enable pulse, the optional extra delay, the low
  nibble (pin index \<open>i\<close> carries bit \<open>i\<close>), an enable pulse.\<close>

definition spec_pulse :: "lcd \<Rightarrow> event list" where
  "spec_pulse t =
     [Write (this_pinEnable t) rpio_LOW, Usleep 1,
      Write (this_pinEnable t) rpio_HIGH, Usleep 1,
      Write (this_pinEnable t) rpio_LOW, Usleep 1]"

definition spec_nibble :: "lcd \<Rightarrow> int \<Rightarrow> nat \<Rightarrow> event list" where
  "spec_nibble t v off =
     map (\<lambda>i. Write (pinsData_at t i) (of_bool (bit v (i + off)))) [0, 1, 2, 3]"

definition spec_transfer :: "lcd \<Rightarrow> int \<Rightarrow> bool \<Rightarrow> nat \<Rightarrow> nat \<Rightarrow> event list" where
  "spec_transfer t v rs settle extra =
     [Usleep settle, Write (this_pinRs t) (if rs then rpio_HIGH else rpio_LOW)]
     @ spec_nibble t v 4 @ spec_pulse t
     @ (if extra = 0 then [] else [Usleep extra])
     @ spec_nibble t v 0 @ spec_pulse t"

section \<open>Observations on the log, and the inputs of the examples\<close>

text \<open>The durations slept, in order, and the writes to one pin.\<close>

definition sleeps :: "event list \<Rightarrow> nat list" where
  "sleeps g = concat (map (\<lambda>e. case e of Usleep n \<Rightarrow> [n] | _ \<Rightarrow> []) g)"

definition writes_to :: "pin option \<Rightarrow> event list \<Rightarrow> event list" where
  "writes_to p g = filter (\<lambda>e. case e of Write q v \<Rightarrow> q = p | _ \<Rightarrow> False) g"

text \<open>Step 1 of section 4.1: register select, enable and the data pins are configured as
  outputs, initially low. \<open>new_lcd\<close> is the object the constructor builds from a
  configuration whose data-pin list is \<open>ps\<close>.\<close>

definition spec_opens :: "config \<Rightarrow> pin list \<Rightarrow> event list" where
  "spec_opens c ps =
     [Open (config_pinRs c) rpio_OUTPUT rpio_LOW, Open (config_pinEnable c) rpio_OUTPUT rpio_LOW]
     @ map (\<lambda>p. Open (Some p) rpio_OUTPUT rpio_LOW) ps"

definition new_lcd :: "config \<Rightarrow> pin list \<Rightarrow> lcd" where
  "new_lcd c ps =
     \<lparr>this_pinRs = config_pinRs c, this_pinEnable = config_pinEnable c, this_pinsData = ps,
      this_lcdColumns = config_lcdColumns c, this_lcdRows = config_lcdRows c\<rparr>"

text \<open>Section 4.3: the element at index \<open>k\<close> of the string is a data-mode write, or, when
  it is the newline, \<^verbatim>\<open>setCursor(0, currentRow + 1)\<close>, where \<open>currentRow\<close> is the number of
  newlines before index \<open>k\<close>.\<close>

definition spec_currentRow :: "jschar list \<Rightarrow> nat \<Rightarrow> int" where
  "spec_currentRow cs k = int (length (filter (\<lambda>c. c = newline) (take k cs)))"

definition spec_print_step :: "jschar list \<Rightarrow> nat \<Rightarrow> world \<Rightarrow> world" where
  "spec_print_step cs k w =
     (if cs ! k = newline then setCursor 0 (spec_currentRow cs k + 1) w
      else write8Bits (charCodeAt0 (cs ! k)) True 50 0 w)"

text \<open>The ordinal of an element of \<^verbatim>\<open>Array.from(str)\<close> is its code point. \<open>spec_low_byte\<close>
  is what section 4.3 says is sent for an element: nothing of its own for the newline,
  the character code modulo 256 otherwise. \<open>spec_data_write\<close> is the data-mode transfer
  of the low byte of a code, as an extension of the log.\<close>

definition spec_ordinal :: "jschar \<Rightarrow> int" where
  "spec_ordinal c =
     (case c of
        Unit u \<Rightarrow> uint u
      | Pair h l \<Rightarrow> 0x10000 + (uint h - 0xD800) * 0x400 + (uint l - 0xDC00))"

definition spec_low_byte :: "jschar \<Rightarrow> int option" where
  "spec_low_byte c = (if c = newline then None else Some (charCodeAt0 c mod 256))"

definition spec_data_write :: "int \<Rightarrow> world \<Rightarrow> world" where
  "spec_data_write code w =
     w\<lparr>gpio := gpio w
        @ [Usleep 50, Write (this_pinRs (obj w)) rpio_HIGH]
        @ spec_nibble (obj w) (code mod 256) 4 @ spec_pulse (obj w)
        @ spec_nibble (obj w) (code mod 256) 0 @ spec_pulse (obj w)\<rparr>"

text \<open>The configuration of the README (a 16 by 2 display), the object built from it with
  an empty log, and three configurations the specification calls malformed: non-positive
  geometry, five data pins, no data-pin list.\<close>

definition README_config :: config where
  "README_config = \<lparr>config_pinRs = Some 18, config_pinEnable = Some 22,
     config_pinsData = Some [11, 12, 15, 16], config_lcdColumns = 16, config_lcdRows = 2\<rparr>"

definition README_world :: world where
  "README_world = \<lparr>obj = new_lcd README_config [11, 12, 15, 16], gpio = []\<rparr>"

definition nonpositive_config :: config where
  "nonpositive_config = \<lparr>config_pinRs = Some 18, config_pinEnable = Some 22,
     config_pinsData = Some [11, 12, 15, 16], config_lcdColumns = 0, config_lcdRows = - 3\<rparr>"

definition five_pins_config :: config where
  "five_pins_config = \<lparr>config_pinRs = Some 18, config_pinEnable = Some 22,
     config_pinsData = Some [11, 12, 15, 16, 7], config_lcdColumns = 16, config_lcdRows = 2\<rparr>"

definition no_pins_config :: config where
  "no_pins_config = \<lparr>config_pinRs = Some 18, config_pinEnable = Some 22,
     config_pinsData = None, config_lcdColumns = 16, config_lcdRows = 2\<rparr>"

section \<open>What the primitives append to the log\<close>

lemma js_bit: "n < 32 \<Longrightarrow> js_and (js_shr v n) 1 = of_bool (bit v n)"
  unfolding js_and_def js_shr_def ToInt32_def
  by (rule bit_eqI) (auto simp: bit_simps)

lemma obj_rpio_write [simp]: "obj (rpio_write p v w) = obj w"
  by (simp add: rpio_write_def)
lemma gpio_rpio_write [simp]: "gpio (rpio_write p v w) = gpio w @ [Write p v]"
  by (simp add: rpio_write_def)
lemma obj_rpio_usleep [simp]: "obj (rpio_usleep n w) = obj w"
  by (simp add: rpio_usleep_def)
lemma gpio_rpio_usleep [simp]: "gpio (rpio_usleep n w) = gpio w @ [Usleep n]"
  by (simp add: rpio_usleep_def)

lemma obj_pulseEnable [simp]: "obj (pulseEnable w) = obj w"
  by (simp add: pulseEnable_def Let_def)

lemma gpio_pulseEnable: "gpio (pulseEnable w) = gpio w @
  [Write (this_pinEnable (obj w)) rpio_LOW, Usleep 1,
   Write (this_pinEnable (obj w)) rpio_HIGH, Usleep 1,
   Write (this_pinEnable (obj w)) rpio_LOW, Usleep 1]"
  by (simp add: pulseEnable_def Let_def)

lemma obj_write_upper [simp]: "obj (write_upper v i w) = obj w"
  by (induction v i w rule: write_upper.induct) (simp add: write_upper.simps)

lemma obj_write_lower [simp]: "obj (write_lower v i w) = obj w"
  by (induction v i w rule: write_lower.induct) (simp add: write_lower.simps)

lemma upt_0_4: "[0..<4] = [0, 1, 2, 3::nat]"
  by (simp add: upt_rec)

lemma gpio_write_upper_from: "gpio (write_upper v i w) = gpio w @
  map (\<lambda>k. Write (pinsData_at (obj w) k) (of_bool (bit v (k + 4)))) [i..<4]"
proof (induction v i w rule: write_upper.induct)
  case (1 v i w)
  show ?case
  proof (cases "i < 4")
    case True
    then show ?thesis
      using "1.IH" by (subst write_upper.simps) (simp add: js_bit upt_conv_Cons)
  next
    case False
    then show ?thesis by (subst write_upper.simps) simp
  qed
qed

lemma gpio_write_lower_from: "gpio (write_lower v i w) = gpio w @
  map (\<lambda>k. Write (pinsData_at (obj w) k) (of_bool (bit v k))) [i..<4]"
proof (induction v i w rule: write_lower.induct)
  case (1 v i w)
  show ?case
  proof (cases "i < 4")
    case True
    then show ?thesis
      using "1.IH" by (subst write_lower.simps) (simp add: js_bit upt_conv_Cons)
  next
    case False
    then show ?thesis by (subst write_lower.simps) simp
  qed
qed

lemma gpio_write_upper: "gpio (write_upper v 0 w) = gpio w @
  [Write (pinsData_at (obj w) 0) (of_bool (bit v 4)),
   Write (pinsData_at (obj w) 1) (of_bool (bit v 5)),
   Write (pinsData_at (obj w) 2) (of_bool (bit v 6)),
   Write (pinsData_at (obj w) 3) (of_bool (bit v 7))]"
  by (simp add: gpio_write_upper_from upt_0_4)

lemma gpio_write_lower: "gpio (write_lower v 0 w) = gpio w @
  [Write (pinsData_at (obj w) 0) (of_bool (bit v 0)),
   Write (pinsData_at (obj w) 1) (of_bool (bit v 1)),
   Write (pinsData_at (obj w) 2) (of_bool (bit v 2)),
   Write (pinsData_at (obj w) 3) (of_bool (bit v 3))]"
  by (simp add: gpio_write_lower_from upt_0_4)

lemma obj_write8Bits [simp]: "obj (write8Bits v rs ww iw w) = obj w"
  by (simp add: write8Bits_def Let_def)

lemma gpio_write8Bits:
  "gpio (write8Bits v rs ww iw w) = gpio w @ spec_transfer (obj w) v rs ww iw"
  by (simp add: write8Bits_def Let_def spec_transfer_def spec_nibble_def spec_pulse_def
      gpio_write_upper gpio_write_lower gpio_pulseEnable)

lemma world_eqI: "obj w = obj w' \<Longrightarrow> gpio w = gpio w' \<Longrightarrow> (w::world) = w'"
  by simp

lemma write8Bits_eq:
  "write8Bits v rs ww iw w = w\<lparr>gpio := gpio w @ spec_transfer (obj w) v rs ww iw\<rparr>"
  by (rule world_eqI) (simp_all add: gpio_write8Bits)

lemma spec_nibble_cong:
  "take_bit 8 v = take_bit 8 v' \<Longrightarrow> off \<le> 4 \<Longrightarrow> spec_nibble t v off = spec_nibble t v' off"
proof -
  assume a: "take_bit 8 v = take_bit 8 v'" and b: "off \<le> 4"
  have "bit v k = bit v' k" if "k < 8" for k
    using that a by (metis bit_take_bit_iff)
  then show ?thesis using b by (simp add: spec_nibble_def)
qed

lemma spec_transfer_cong:
  "take_bit 8 v = take_bit 8 v' \<Longrightarrow> spec_transfer t v rs ww iw = spec_transfer t v' rs ww iw"
  by (simp add: spec_transfer_def spec_nibble_cong [of v v'])

lemma js_or_vals:
  "js_or (js_or (js_or DISPLAYCONTROL DISPLAYON) CURSOROFF) BLINKOFF = 0x0C"
  "js_or (js_or (js_or FUNCTIONSET FOURBITMODE) TWOLINE) FIVEBYEIGHTDOTS = 0x28"
  "js_or (js_or ENTRYMODESET ENTRYLEFT) ENTRYSHIFTDECREMENT = 0x06"
  by (simp_all add: js_or_def ToInt32_def DISPLAYCONTROL_def DISPLAYON_def CURSOROFF_def
      BLINKOFF_def FUNCTIONSET_def FOURBITMODE_def TWOLINE_def FIVEBYEIGHTDOTS_def
      ENTRYMODESET_def ENTRYLEFT_def ENTRYSHIFTDECREMENT_def)

section \<open>What the methods and the constructor append to the log\<close>

lemma obj_clear [simp]: "obj (clear w) = obj w"
  by (simp add: clear_def)

lemma obj_setCursor [simp]: "obj (setCursor col row w) = obj w"
  by (simp add: setCursor_def Let_def)

lemma obj_print_forEach [simp]: "obj (print_forEach cs row w) = obj w"
  by (induction cs arbitrary: row w) simp_all

lemma obj_init_sequence [simp]: "obj (init_sequence w) = obj w"
  by (simp add: init_sequence_def Let_def)

lemma gpio_init_sequence:
  "gpio (init_sequence w) = gpio w
     @ spec_transfer (obj w) 0x33 False 1 4100
     @ spec_transfer (obj w) 0x32 False 1 100
     @ spec_transfer (obj w) 0x0C False 50 0
     @ spec_transfer (obj w) 0x28 False 50 0
     @ spec_transfer (obj w) 0x06 False 50 0
     @ spec_transfer (obj w) 0x01 False 50 0"
  by (simp add: init_sequence_def Let_def clear_def gpio_write8Bits js_or_vals CLEARDISPLAY_def)

lemma open_forEach_ok:
  "list_all (\<lambda>p. ok (Some p)) ps \<Longrightarrow>
     open_forEach ok ps g = (None, g @ map (\<lambda>p. Open (Some p) rpio_OUTPUT rpio_LOW) ps)"
  by (induction ps arbitrary: g) (simp_all add: rpio_open_def)

lemma open_forEach_fail:
  "\<not> list_all (\<lambda>p. ok (Some p)) ps \<Longrightarrow>
     \<exists>es. open_forEach ok ps g = (Some GpioError, g @ es) \<and> list_all is_Open es"
proof (induction ps arbitrary: g)
  case Nil
  then show ?case by simp
next
  case (Cons p ps)
  show ?case
  proof (cases "ok (Some p)")
    case False
    then show ?thesis by (simp add: rpio_open_def)
  next
    case True
    with Cons.prems have "\<not> list_all (\<lambda>p. ok (Some p)) ps" by simp
    from Cons.IH [OF this, of "g @ [Open (Some p) rpio_OUTPUT rpio_LOW]"]
    obtain es where "open_forEach ok ps (g @ [Open (Some p) rpio_OUTPUT rpio_LOW])
        = (Some GpioError, (g @ [Open (Some p) rpio_OUTPUT rpio_LOW]) @ es)"
      and "list_all is_Open es" by blast
    with True show ?thesis
      by (intro exI [of _ "Open (Some p) rpio_OUTPUT rpio_LOW # es"]) (simp add: rpio_open_def)
  qed
qed

lemma constructor_success:
  assumes "ok (config_pinRs c)" and "ok (config_pinEnable c)"
    and "config_pinsData c = Some ps" and "list_all (\<lambda>p. ok (Some p)) ps"
  shows "constructor ok c g =
     (Inr (new_lcd c ps),
      g @ spec_opens c ps
        @ spec_transfer (new_lcd c ps) 0x33 False 1 4100
        @ spec_transfer (new_lcd c ps) 0x32 False 1 100
        @ spec_transfer (new_lcd c ps) 0x0C False 50 0
        @ spec_transfer (new_lcd c ps) 0x28 False 50 0
        @ spec_transfer (new_lcd c ps) 0x06 False 50 0
        @ spec_transfer (new_lcd c ps) 0x01 False 50 0)"
  using assms
  by (simp add: constructor_def rpio_open_def open_forEach_ok Let_def gpio_init_sequence
      new_lcd_def spec_opens_def)

lemma constructor_failure:
  assumes "\<not> ok (config_pinRs c) \<or> \<not> ok (config_pinEnable c) \<or> config_pinsData c = None
     \<or> (\<exists>ps. config_pinsData c = Some ps \<and> \<not> list_all (\<lambda>p. ok (Some p)) ps)"
  shows "\<exists>e es. constructor ok c g = (Inl e, g @ es) \<and> list_all is_Open es
     \<and> (e = TypeError \<longleftrightarrow> ok (config_pinRs c) \<and> ok (config_pinEnable c) \<and> config_pinsData c = None)"
proof (cases "ok (config_pinRs c)")
  case False
  then show ?thesis by (simp add: constructor_def rpio_open_def)
next
  case rs: True
  show ?thesis
  proof (cases "ok (config_pinEnable c)")
    case False
    with rs show ?thesis by (simp add: constructor_def rpio_open_def)
  next
    case en: True
    show ?thesis
    proof (cases "config_pinsData c")
      case None
      with rs en show ?thesis by (simp add: constructor_def rpio_open_def)
    next
      case (Some ps)
      with assms rs en have "\<not> list_all (\<lambda>p. ok (Some p)) ps" by simp
      from open_forEach_fail [OF this, of "g @ [Open (config_pinRs c) rpio_OUTPUT rpio_LOW,
          Open (config_pinEnable c) rpio_OUTPUT rpio_LOW]"]
      obtain es where "open_forEach ok ps (g @ [Open (config_pinRs c) rpio_OUTPUT rpio_LOW,
          Open (config_pinEnable c) rpio_OUTPUT rpio_LOW]) = (Some GpioError,
          (g @ [Open (config_pinRs c) rpio_OUTPUT rpio_LOW,
          Open (config_pinEnable c) rpio_OUTPUT rpio_LOW]) @ es)" and "list_all is_Open es"
        by blast
      with rs en Some show ?thesis
        by (simp add: constructor_def rpio_open_def)
    qed
  qed
qed

lemma writes_to_append: "writes_to p (xs @ ys) = writes_to p xs @ writes_to p ys"
  by (simp add: writes_to_def)

lemma pinsData_at_4:
  "length (this_pinsData t) = 4 \<Longrightarrow> i < 4 \<Longrightarrow> pinsData_at t i = Some (this_pinsData t ! i)"
  by (simp add: pinsData_at_def js_index_def)

lemma writes_to_rs_transfer:
  assumes "length (this_pinsData t) = 4" and "this_pinRs t \<noteq> this_pinEnable t"
    and "this_pinRs t \<notin> Some ` set (this_pinsData t)"
  shows "length (writes_to (this_pinRs t) (spec_transfer t v rs ww iw)) = 1"
proof -
  have "pinsData_at t i \<noteq> this_pinRs t" if "i < 4" for i
    using assms that by (metis pinsData_at_4 image_eqI nth_mem)
  from this [of 0] this [of 1] this [of 2] this [of 3] assms(2) show ?thesis
    by (auto simp add: writes_to_def spec_transfer_def spec_nibble_def spec_pulse_def)
qed

lemma spec_currentRow_Cons:
  "spec_currentRow (c # cs) (Suc k) = (if c = newline then 1 else 0) + spec_currentRow cs k"
  by (simp add: spec_currentRow_def)

lemma spec_currentRow_0 [simp]: "spec_currentRow cs 0 = 0"
  by (simp add: spec_currentRow_def)

lemma print_forEach_fold:
  "print_forEach cs row w =
     fold (\<lambda>k w. if cs ! k = newline then setCursor 0 (row + spec_currentRow cs k + 1) w
                  else write8Bits (charCodeAt0 (cs ! k)) True 50 0 w) [0..<length cs] w"
proof (induction cs arbitrary: row w)
  case Nil
  then show ?case by simp
next
  case (Cons c cs)
  have upt: "[0..<length (c # cs)] = 0 # map Suc [0..<length cs]"
    by (simp add: upt_conv_Cons map_Suc_upt del: upt_Suc)
  show ?case
  proof (cases "c = newline")
    case True
    then show ?thesis
      unfolding upt
      by (simp add: Cons.IH fold_map comp_def spec_currentRow_Cons algebra_simps
          cong: if_cong)
  next
    case False
    then show ?thesis
      unfolding upt
      by (simp add: Cons.IH fold_map comp_def spec_currentRow_Cons cong: if_cong)
  qed
qed

lemma js_or_low_byte: "take_bit 8 (js_or a b) = take_bit 8 (a OR b)"
  unfolding js_or_def ToInt32_def
  by (rule bit_eqI) (auto simp: bit_simps)

lemma setCursor_is_write: "\<exists>v. setCursor col row w = write8Bits v False 50 0 w"
  unfolding setCursor_def Let_def by blast

lemma gpio_print_forEach:
  "\<exists>vs. length vs = length cs \<and> gpio (print_forEach cs row w) =
     gpio w @ concat (map (\<lambda>(v, rs). spec_transfer (obj w) v rs 50 0) vs)"
proof (induction cs arbitrary: row w)
  case Nil
  then show ?case by simp
next
  case (Cons c cs)
  have "\<exists>v rs row'. print_forEach (c # cs) row w = print_forEach cs row' (write8Bits v rs 50 0 w)"
  proof (cases "c = newline")
    case True
    obtain v where "setCursor 0 (row + 1) w = write8Bits v False 50 0 w"
      using setCursor_is_write by blast
    with True show ?thesis by auto
  next
    case False
    then show ?thesis by auto
  qed
  then obtain v rs row' where
    step: "print_forEach (c # cs) row w = print_forEach cs row' (write8Bits v rs 50 0 w)"
    by blast
  from Cons.IH [of row' "write8Bits v rs 50 0 w"] obtain vs where
    "length vs = length cs" and
    "gpio (print_forEach cs row' (write8Bits v rs 50 0 w)) =
       gpio (write8Bits v rs 50 0 w) @ concat (map (\<lambda>(v, rs). spec_transfer (obj w) v rs 50 0) vs)"
    by auto
  then have "length ((v, rs) # vs) = length (c # cs) \<and> gpio (print_forEach (c # cs) row w) =
     gpio w @ concat (map (\<lambda>(v, rs). spec_transfer (obj w) v rs 50 0) ((v, rs) # vs))"
    unfolding step by (simp add: gpio_write8Bits)
  then show ?case by blast
qed

lemma constructor_failure_iff:
  "(\<exists>e. fst (constructor ok c g) = Inl e) \<longleftrightarrow>
     (\<not> ok (config_pinRs c) \<or> \<not> ok (config_pinEnable c) \<or> config_pinsData c = None
      \<or> (\<exists>ps. config_pinsData c = Some ps \<and> \<not> list_all (\<lambda>p. ok (Some p)) ps))"
proof
  assume l: "\<exists>e. fst (constructor ok c g) = Inl e"
  show "\<not> ok (config_pinRs c) \<or> \<not> ok (config_pinEnable c) \<or> config_pinsData c = None
      \<or> (\<exists>ps. config_pinsData c = Some ps \<and> \<not> list_all (\<lambda>p. ok (Some p)) ps)"
  proof (rule ccontr)
    assume n: "\<not> ?thesis"
    then obtain ps where "config_pinsData c = Some ps" by auto
    with n have "fst (constructor ok c g) = Inr (new_lcd c ps)"
      using constructor_success [of ok c ps g] by simp
    with l show False by simp
  qed
next
  assume "\<not> ok (config_pinRs c) \<or> \<not> ok (config_pinEnable c) \<or> config_pinsData c = None
      \<or> (\<exists>ps. config_pinsData c = Some ps \<and> \<not> list_all (\<lambda>p. ok (Some p)) ps)"
  from constructor_failure [OF this, of g] show "\<exists>e. fst (constructor ok c g) = Inl e"
    by auto
qed

lemma low_byte: "take_bit 8 (v mod 256) = take_bit 8 (v::int)"
  by (simp add: take_bit_eq_mod)

lemma bit_length_le: "n < 2 ^ k \<Longrightarrow> bit_length n \<le> k"
proof (induction k arbitrary: n)
  case 0
  then show ?case by (simp add: bit_length.simps)
next
  case (Suc k)
  show ?case
  proof (cases "n = 0")
    case True
    then show ?thesis by (simp add: bit_length.simps)
  next
    case False
    from Suc.prems have "n div 2 < 2 ^ k" by simp
    from Suc.IH [OF this] False show ?thesis
      by (subst bit_length.simps) simp
  qed
qed

lemma bit_length_eq: "2 ^ k \<le> n \<Longrightarrow> n < 2 ^ Suc k \<Longrightarrow> bit_length n = Suc k"
proof (induction k arbitrary: n)
  case 0
  then have "n = 1" by simp
  then show ?case by (simp add: bit_length.simps)
next
  case (Suc k)
  from Suc.prems have "2 ^ k \<le> n div 2" and "n div 2 < 2 ^ Suc k" and "n \<noteq> 0"
    by auto
  with Suc.IH [of "n div 2"] show ?case
    by (subst bit_length.simps) simp
qed

lemma round_double_exact: "\<bar>x\<bar> < 2 ^ 53 \<Longrightarrow> round_double x = x"
proof -
  assume a: "\<bar>x\<bar> < 2 ^ 53"
  then have "nat \<bar>x\<bar> < 2 ^ 53" by simp
  then have "bit_length (nat \<bar>x\<bar>) - 53 = 0"
    using bit_length_le [of "nat \<bar>x\<bar>" 53] by simp
  then show ?thesis
    by (simp add: round_double_def Let_def mult_sgn_abs)
qed

lemma round_double_2_59: "round_double (2 ^ 59 + 64) = 2 ^ 59"
proof -
  have "bit_length (nat \<bar>2 ^ 59 + 64 :: int\<bar>) = Suc 59"
    by (rule bit_length_eq) simp_all
  then show ?thesis
    by (simp add: round_double_def Let_def)
qed

lemma ToInt32_2_59: "ToInt32 (2 ^ 59) = 0"
  unfolding ToInt32_def by (rule bit_eqI) (auto simp: bit_simps)

lemma js_or_2_59: "js_or SETDDRAMADDR (js_plus (2 ^ 59) 0x40) = 0x80"
proof -
  have "js_plus (2 ^ 59) 0x40 = 2 ^ 59"
    unfolding js_plus_def by (rule round_double_2_59)
  then show ?thesis
    by (simp only: js_or_def ToInt32_2_59) (simp add: ToInt32_def SETDDRAMADDR_def)
qed

lemma ROWOFFSETS_range:
  "0 \<le> r \<Longrightarrow> r \<le> 3 \<Longrightarrow>
     0 \<le> [0x00, 0x40, 0x14, 0x54 :: int] ! nat r \<and> [0x00, 0x40, 0x14, 0x54 :: int] ! nat r \<le> 0x54"
proof -
  assume "0 \<le> r" and "r \<le> 3"
  then have "r = 0 \<or> r = 1 \<or> r = 2 \<or> r = 3" by arith
  then show ?thesis by auto
qed

lemma write8Bits_data: "write8Bits code True 50 0 w = spec_data_write code w"
proof -
  have "spec_transfer (obj w) code True 50 0 = spec_transfer (obj w) (code mod 256) True 50 0"
    by (rule spec_transfer_cong) (simp add: low_byte)
  then show ?thesis
    by (simp add: write8Bits_eq spec_data_write_def) (simp add: spec_transfer_def)
qed

lemma spec_data_write_cong:
  "code mod 256 = code' mod 256 \<Longrightarrow> spec_data_write code w = spec_data_write code' w"
  by (simp add: spec_data_write_def)

lemma print_forEach_low_byte:
  "map spec_low_byte cs = map spec_low_byte cs' \<Longrightarrow>
     print_forEach cs row w = print_forEach cs' row w"
proof (induction cs arbitrary: cs' row w)
  case Nil
  then show ?case by simp
next
  case (Cons c cs)
  from Cons.prems obtain c' cs1 where cs': "cs' = c' # cs1"
    and h: "spec_low_byte c = spec_low_byte c'"
    and t: "map spec_low_byte cs = map spec_low_byte cs1"
    by (cases cs') auto
  show ?case
  proof (cases "c = newline")
    case True
    with h have "c' = newline" by (simp add: spec_low_byte_def split: if_splits)
    with True cs' Cons.IH [OF t] show ?thesis by simp
  next
    case False
    with h have n: "c' \<noteq> newline" and m: "charCodeAt0 c mod 256 = charCodeAt0 c' mod 256"
      by (simp_all add: spec_low_byte_def split: if_splits)
    from spec_data_write_cong [OF m, of w]
    have "write8Bits (charCodeAt0 c) True 50 0 w = write8Bits (charCodeAt0 c') True 50 0 w"
      by (simp only: write8Bits_data)
    with False n cs' Cons.IH [OF t] show ?thesis by simp
  qed
qed

section \<open>The properties\<close>

text \<open>C1. For every value and register-select flag, \<^verbatim>\<open>_write8Bits\<close> appends to the log: the
  settle delay, the register-select level, the high nibble (data pin \<open>i\<close> driven with bit
  \<open>i + 4\<close>), one enable pulse (low, 1 microsecond, high, 1 microsecond, low, 1 microsecond),
  the extra delay if there is one, the low nibble (data pin \<open>i\<close> driven with bit \<open>i\<close>), and
  one more enable pulse; nothing else. It holds for every integer value, so for the 8-bit
  ones.\<close>

theorem write8Bits_two_nibbles:
  "gpio (write8Bits v rs ww iw w) = gpio w @
     [Usleep ww,
      Write (this_pinRs (obj w)) (if rs then rpio_HIGH else rpio_LOW),
      Write (pinsData_at (obj w) 0) (of_bool (bit v 4)),
      Write (pinsData_at (obj w) 1) (of_bool (bit v 5)),
      Write (pinsData_at (obj w) 2) (of_bool (bit v 6)),
      Write (pinsData_at (obj w) 3) (of_bool (bit v 7)),
      Write (this_pinEnable (obj w)) rpio_LOW, Usleep 1,
      Write (this_pinEnable (obj w)) rpio_HIGH, Usleep 1,
      Write (this_pinEnable (obj w)) rpio_LOW, Usleep 1]
     @ (if iw = 0 then [] else [Usleep iw]) @
     [Write (pinsData_at (obj w) 0) (of_bool (bit v 0)),
      Write (pinsData_at (obj w) 1) (of_bool (bit v 1)),
      Write (pinsData_at (obj w) 2) (of_bool (bit v 2)),
      Write (pinsData_at (obj w) 3) (of_bool (bit v 3)),
      Write (this_pinEnable (obj w)) rpio_LOW, Usleep 1,
      Write (this_pinEnable (obj w)) rpio_HIGH, Usleep 1,
      Write (this_pinEnable (obj w)) rpio_LOW, Usleep 1]"
  by (simp add: gpio_write8Bits spec_transfer_def spec_nibble_def spec_pulse_def)

text \<open>C2, as claimed: construction issues 5 composed instructions and the 2 raw writes,
  7 transfers. Every transfer writes the register-select pin exactly once and nothing else
  writes it, so the writes to that pin count the transfers. With the configuration of the
  README there are 6 of them, not 7.\<close>

theorem constructor_instruction_count_counterexample:
  "length (writes_to (Some 18) (snd (constructor (\<lambda>p. True) README_config []))) = 6
   \<and> length (writes_to (Some 18) (snd (constructor (\<lambda>p. True) README_config []))) \<noteq> 2 + 5"
proof -
  have "constructor (\<lambda>p. True) README_config [] =
     (Inr (new_lcd README_config [11, 12, 15, 16]),
      [] @ spec_opens README_config [11, 12, 15, 16]
        @ spec_transfer (new_lcd README_config [11, 12, 15, 16]) 0x33 False 1 4100
        @ spec_transfer (new_lcd README_config [11, 12, 15, 16]) 0x32 False 1 100
        @ spec_transfer (new_lcd README_config [11, 12, 15, 16]) 0x0C False 50 0
        @ spec_transfer (new_lcd README_config [11, 12, 15, 16]) 0x28 False 50 0
        @ spec_transfer (new_lcd README_config [11, 12, 15, 16]) 0x06 False 50 0
        @ spec_transfer (new_lcd README_config [11, 12, 15, 16]) 0x01 False 50 0)"
    by (rule constructor_success) (simp_all add: README_config_def)
  moreover have "length (writes_to (Some 18)
      (spec_transfer (new_lcd README_config [11, 12, 15, 16]) v False ww iw)) = 1" for v ww iw
    using writes_to_rs_transfer [of "new_lcd README_config [11, 12, 15, 16]" v False ww iw]
    by (simp add: new_lcd_def README_config_def)
  moreover have "writes_to (Some 18) (spec_opens README_config [11, 12, 15, 16]) = []"
    by (simp add: writes_to_def spec_opens_def)
  ultimately show ?thesis
    by (simp add: writes_to_append)
qed

text \<open>C2, amended. For a configuration with 4 data pins whose pins the platform accepts,
  construction returns the object and has appended to the log the pin configurations and
  then exactly six transfers in this order: raw 0x33 (settle 1, extra delay 4100), raw 0x32
  (settle 1, extra delay 100), the display-control instruction, the function-set
  instruction, the entry-mode instruction and the clear instruction, all in command mode:
  the 2 raw writes and 4 instructions, of which 3 are composed and the last is
  \<^verbatim>\<open>clear\<close>.\<close>

theorem constructor_issues_six_transfers:
  assumes "ok (config_pinRs c)" and "ok (config_pinEnable c)"
    and "config_pinsData c = Some ps" and "length ps = 4" and "list_all (\<lambda>p. ok (Some p)) ps"
  shows "constructor ok c g =
     (Inr (new_lcd c ps),
      g @ spec_opens c ps
        @ spec_transfer (new_lcd c ps) 0x33 False 1 4100
        @ spec_transfer (new_lcd c ps) 0x32 False 1 100
        @ spec_transfer (new_lcd c ps) (DISPLAYCONTROL OR DISPLAYON OR CURSOROFF OR BLINKOFF)
            False 50 0
        @ spec_transfer (new_lcd c ps) (FUNCTIONSET OR FOURBITMODE OR TWOLINE OR FIVEBYEIGHTDOTS)
            False 50 0
        @ spec_transfer (new_lcd c ps) (ENTRYMODESET OR ENTRYLEFT OR ENTRYSHIFTDECREMENT)
            False 50 0
        @ spec_transfer (new_lcd c ps) CLEARDISPLAY False 50 0)"
proof -
  have "DISPLAYCONTROL OR DISPLAYON OR CURSOROFF OR BLINKOFF = 0x0C"
    "FUNCTIONSET OR FOURBITMODE OR TWOLINE OR FIVEBYEIGHTDOTS = 0x28"
    "ENTRYMODESET OR ENTRYLEFT OR ENTRYSHIFTDECREMENT = 0x06"
    "CLEARDISPLAY = 0x01"
    by (simp_all add: DISPLAYCONTROL_def DISPLAYON_def CURSOROFF_def
      BLINKOFF_def FUNCTIONSET_def FOURBITMODE_def TWOLINE_def FIVEBYEIGHTDOTS_def
      ENTRYMODESET_def ENTRYLEFT_def ENTRYSHIFTDECREMENT_def CLEARDISPLAY_def)
  then show ?thesis
    using constructor_success [OF assms(1,2,3,5), of g] by simp
qed

theorem constructor_issues_six_transfers_witness:
  "constructor (\<lambda>p. True) README_config [Usleep 7] =
     (Inr (new_lcd README_config [11, 12, 15, 16]),
      [Usleep 7] @ spec_opens README_config [11, 12, 15, 16]
        @ spec_transfer (new_lcd README_config [11, 12, 15, 16]) 0x33 False 1 4100
        @ spec_transfer (new_lcd README_config [11, 12, 15, 16]) 0x32 False 1 100
        @ spec_transfer (new_lcd README_config [11, 12, 15, 16]) 0x0C False 50 0
        @ spec_transfer (new_lcd README_config [11, 12, 15, 16]) 0x28 False 50 0
        @ spec_transfer (new_lcd README_config [11, 12, 15, 16]) 0x06 False 50 0
        @ spec_transfer (new_lcd README_config [11, 12, 15, 16]) 0x01 False 50 0)"
  using constructor_issues_six_transfers [of "\<lambda>p. True" README_config "[11, 12, 15, 16]" "[Usleep 7]"]
  by (simp add: README_config_def DISPLAYCONTROL_def DISPLAYON_def CURSOROFF_def
      BLINKOFF_def FUNCTIONSET_def FOURBITMODE_def TWOLINE_def FIVEBYEIGHTDOTS_def
      ENTRYMODESET_def ENTRYLEFT_def ENTRYSHIFTDECREMENT_def CLEARDISPLAY_def)

text \<open>C3. \<^verbatim>\<open>print\<close> handles the elements of \<^verbatim>\<open>Array.from(str)\<close> in order: an element other
  than the newline is a data-mode write of its character code, and the newline at index \<open>k\<close>
  is \<^verbatim>\<open>setCursor(0, currentRow + 1)\<close>, where \<open>currentRow\<close> counts the newlines before index
  \<open>k\<close> in this call. \<^verbatim>\<open>print\<close> never clamps the row: in A, newline, B, newline, C the second
  newline is \<^verbatim>\<open>setCursor(0, 2)\<close> whatever the row count of the display. "AB\nCD" is: data A,
  data B, \<^verbatim>\<open>setCursor(0, 1)\<close>, data C, data D.\<close>

theorem print_calls:
  "print str w = fold (spec_print_step (Array_from str)) [0..<length (Array_from str)] w
   \<and> print [0x41, 0x42, 0x0A, 0x43, 0x44] w =
       write8Bits 0x44 True 50 0 (write8Bits 0x43 True 50 0 (setCursor 0 1
         (write8Bits 0x42 True 50 0 (write8Bits 0x41 True 50 0 w))))
   \<and> print [0x41, 0x0A, 0x42, 0x0A, 0x43] w =
       write8Bits 0x43 True 50 0 (setCursor 0 2 (write8Bits 0x42 True 50 0 (setCursor 0 1
         (write8Bits 0x41 True 50 0 w))))"
proof -
  have "print str w = fold (spec_print_step (Array_from str)) [0..<length (Array_from str)] w"
    unfolding print_def print_forEach_fold
    by (rule arg_cong [where f = "\<lambda>f. fold f _ w"]) (simp add: spec_print_step_def fun_eq_iff)
  moreover have "print [0x41, 0x42, 0x0A, 0x43, 0x44] w =
       write8Bits 0x44 True 50 0 (write8Bits 0x43 True 50 0 (setCursor 0 1
         (write8Bits 0x42 True 50 0 (write8Bits 0x41 True 50 0 w))))"
    by (simp add: print_def is_high_surrogate_def newline_def)
  moreover have "print [0x41, 0x0A, 0x42, 0x0A, 0x43] w =
       write8Bits 0x43 True 50 0 (setCursor 0 2 (write8Bits 0x42 True 50 0 (setCursor 0 1
         (write8Bits 0x41 True 50 0 w))))"
    by (simp add: print_def is_high_surrogate_def newline_def)
  ultimately show ?thesis by blast
qed

text \<open>C4. A row at or beyond the configured row count gives the same call as the last
  configured row. A negative row, on a display with at least one row, is not clamped: it
  goes to the table lookup as it is.\<close>

theorem setCursor_clamps_row:
  "(this_lcdRows (obj w) \<le> row \<longrightarrow>
      setCursor col row w = setCursor col (this_lcdRows (obj w) - 1) w)
   \<and> (row < 0 \<and> 0 < this_lcdRows (obj w) \<longrightarrow>
      setCursor col row w =
        write8Bits (case js_index ROWOFFSETS row of
                      Some off \<Rightarrow> js_or SETDDRAMADDR (col + off)
                    | None \<Rightarrow> js_or SETDDRAMADDR 0) False 50 0 w)"
  by (simp add: setCursor_def Let_def js_index_def)

theorem setCursor_clamps_row_witness:
  "setCursor 5 7 README_world = setCursor 5 1 README_world
   \<and> setCursor 5 (- 1) README_world = write8Bits 0x80 False 50 0 README_world"
  using setCursor_clamps_row [where w = README_world and row = 7 and col = 5]
    setCursor_clamps_row [where w = README_world and row = "- 1" and col = 5]
  by (simp add: README_world_def new_lcd_def README_config_def js_index_def js_or_def
      ToInt32_def SETDDRAMADDR_def)

text \<open>C5, as claimed: for every non-negative column the address sent is the column plus
  the row offset. With column \<open>2 ^ 59\<close> and row 1 on the display of the README, the sum
  \<open>2 ^ 59 + 0x40\<close> is not a binary64 value: \<^verbatim>\<open>+\<close> rounds it to \<open>2 ^ 59\<close>, whose low 32 bits are
  0, and the instruction sent is 0x80 (address 0), not \<^verbatim>\<open>SETDDRAMADDR\<close> with the address
  column + 0x40, whose byte is 0xC0.\<close>

theorem setCursor_huge_column_counterexample:
  "(0::int) \<le> 2 ^ 59
   \<and> gpio (setCursor (2 ^ 59) 1 README_world) =
       spec_transfer (obj README_world) 0x80 False 50 0
   \<and> gpio (setCursor (2 ^ 59) 1 README_world) \<noteq>
       spec_transfer (obj README_world) (0x80 OR (2 ^ 59 + [0x00, 0x40, 0x14, 0x54] ! 1))
         False 50 0"
proof -
  have "setCursor (2 ^ 59) 1 README_world = write8Bits 0x80 False 50 0 README_world"
    using js_or_2_59
    by (simp add: setCursor_def Let_def README_world_def new_lcd_def README_config_def
        js_index_def ROWOFFSETS_def)
  then have g: "gpio (setCursor (2 ^ 59) 1 README_world) =
       spec_transfer (obj README_world) 0x80 False 50 0"
    by (simp add: gpio_write8Bits) (simp add: README_world_def)
  have "spec_nibble (obj README_world) 0x80 4 \<noteq>
      spec_nibble (obj README_world) (0x80 OR (2 ^ 59 + [0x00, 0x40, 0x14, 0x54] ! 1)) 4"
    by (simp add: spec_nibble_def)
  then have "spec_transfer (obj README_world) 0x80 False 50 0 \<noteq>
      spec_transfer (obj README_world) (0x80 OR (2 ^ 59 + [0x00, 0x40, 0x14, 0x54] ! 1))
        False 50 0"
    by (simp add: spec_transfer_def spec_nibble_def)
  with g show ?thesis by simp
qed

text \<open>C5, amended. When the clamped row \<open>r\<close> is one of 0..3 and the column lies between
  \<open>- 2 ^ 53\<close> and \<open>2 ^ 53 - 0x54\<close> (so for every non-negative column below that bound, where
  the sum is exact), \<^verbatim>\<open>setCursor\<close> is one command-mode transfer of
  \<^verbatim>\<open>SETDDRAMADDR | (col + table[r])\<close>, with the table 0x00, 0x40, 0x14, 0x54; the byte on
  the wires is 0x80 with the bits of that address.\<close>

theorem setCursor_address:
  assumes "r = (if row > this_lcdRows (obj w) - 1 then this_lcdRows (obj w) - 1 else row)"
    and "0 \<le> r" and "r \<le> 3" and "- (2 ^ 53) < col" and "col < 2 ^ 53 - 0x54"
  shows "ROWOFFSETS = [0x00, 0x40, 0x14, 0x54]
    \<and> setCursor col row w =
        write8Bits (js_or SETDDRAMADDR (col + [0x00, 0x40, 0x14, 0x54] ! nat r)) False 50 0 w
    \<and> gpio (setCursor col row w) = gpio w @
        spec_transfer (obj w) (0x80 OR (col + [0x00, 0x40, 0x14, 0x54] ! nat r)) False 50 0"
proof -
  from assms(2,3) have idx: "js_index ROWOFFSETS r = Some ([0x00, 0x40, 0x14, 0x54] ! nat r)"
    by (simp add: js_index_def ROWOFFSETS_def)
  from ROWOFFSETS_range [OF assms(2,3)] assms(4,5)
  have "\<bar>col + [0x00, 0x40, 0x14, 0x54] ! nat r\<bar> < 2 ^ 53"
    by arith
  then have exact: "js_plus col ([0x00, 0x40, 0x14, 0x54] ! nat r) =
      col + [0x00, 0x40, 0x14, 0x54] ! nat r"
    unfolding js_plus_def by (rule round_double_exact)
  have eq: "setCursor col row w =
        write8Bits (js_or SETDDRAMADDR (col + [0x00, 0x40, 0x14, 0x54] ! nat r)) False 50 0 w"
    using idx assms(1) exact by (simp add: setCursor_def Let_def)
  have "spec_transfer (obj w) (js_or SETDDRAMADDR (col + [0x00, 0x40, 0x14, 0x54] ! nat r))
          False 50 0
      = spec_transfer (obj w) (0x80 OR (col + [0x00, 0x40, 0x14, 0x54] ! nat r)) False 50 0"
    by (rule spec_transfer_cong) (simp add: js_or_low_byte SETDDRAMADDR_def)
  with eq show ?thesis
    by (simp add: ROWOFFSETS_def gpio_write8Bits)
qed

theorem setCursor_address_witness:
  "setCursor 3 5 README_world = write8Bits (js_or SETDDRAMADDR (3 + 0x40)) False 50 0 README_world
   \<and> gpio (setCursor 3 5 README_world) =
       spec_transfer (obj README_world) 0xC3 False 50 0"
proof -
  have r: "(1::int) = (if this_lcdRows (obj README_world) - 1 < 5
      then this_lcdRows (obj README_world) - 1 else 5)"
    by (simp add: README_world_def new_lcd_def README_config_def)
  have g: "gpio README_world = []"
    by (simp add: README_world_def)
  from setCursor_address [where col = 3, OF r] show ?thesis
    by (auto simp add: g)
qed

text \<open>C6. With pins the platform accepts, the constructor's transfers are: 0x33 with settle
  delay 1 and extra delay 4100, 0x32 with settle delay 1 and extra delay 100, and four
  transfers with settle delay 50 and no extra delay. \<^verbatim>\<open>clear\<close> and \<^verbatim>\<open>setCursor\<close> are one
  transfer each, and \<^verbatim>\<open>print\<close> is one transfer for each element of the string, all with
  settle delay 50 and no extra delay. In a transfer the extra delay, when there is one,
  comes after the enable pulse of the high nibble and before the low nibble; the only
  other delays are the settle delay and the six 1-microsecond holds of the two pulses.\<close>

theorem write_delays:
  "(ok (config_pinRs c) \<and> ok (config_pinEnable c) \<and> config_pinsData c = Some ps
      \<and> list_all (\<lambda>p. ok (Some p)) ps \<longrightarrow>
      snd (constructor ok c g) = g @ spec_opens c ps
        @ spec_transfer (new_lcd c ps) 0x33 False 1 4100
        @ spec_transfer (new_lcd c ps) 0x32 False 1 100
        @ concat (map (\<lambda>v. spec_transfer (new_lcd c ps) v False 50 0) [0x0C, 0x28, 0x06, 0x01]))
   \<and> (\<exists>v. gpio (clear w) = gpio w @ spec_transfer (obj w) v False 50 0)
   \<and> (\<exists>v. gpio (setCursor col row w) = gpio w @ spec_transfer (obj w) v False 50 0)
   \<and> (\<exists>vs. length vs = length (Array_from str) \<and> gpio (print str w) =
         gpio w @ concat (map (\<lambda>(v, rs). spec_transfer (obj w) v rs 50 0) vs))
   \<and> spec_transfer t v rs settle extra =
       [Usleep settle, Write (this_pinRs t) (if rs then rpio_HIGH else rpio_LOW)]
       @ spec_nibble t v 4 @ spec_pulse t
       @ (if extra = 0 then [] else [Usleep extra])
       @ spec_nibble t v 0 @ spec_pulse t
   \<and> sleeps (spec_transfer t v rs settle extra) =
       [settle, 1, 1, 1] @ (if extra = 0 then [] else [extra]) @ [1, 1, 1]"
proof -
  have "snd (constructor ok c g) = g @ spec_opens c ps
        @ spec_transfer (new_lcd c ps) 0x33 False 1 4100
        @ spec_transfer (new_lcd c ps) 0x32 False 1 100
        @ concat (map (\<lambda>v. spec_transfer (new_lcd c ps) v False 50 0) [0x0C, 0x28, 0x06, 0x01])"
    if "ok (config_pinRs c)" "ok (config_pinEnable c)" "config_pinsData c = Some ps"
      "list_all (\<lambda>p. ok (Some p)) ps"
    using constructor_success [OF that, of g] by simp
  moreover have "\<exists>v. gpio (clear w) = gpio w @ spec_transfer (obj w) v False 50 0"
    by (auto simp add: clear_def gpio_write8Bits)
  moreover have "\<exists>v. gpio (setCursor col row w) = gpio w @ spec_transfer (obj w) v False 50 0"
    using setCursor_is_write [of col row w] by (auto simp add: gpio_write8Bits)
  moreover have "\<exists>vs. length vs = length (Array_from str) \<and> gpio (print str w) =
         gpio w @ concat (map (\<lambda>(v, rs). spec_transfer (obj w) v rs 50 0) vs)"
    unfolding print_def by (rule gpio_print_forEach)
  moreover have "sleeps (spec_transfer t v rs settle extra) =
       [settle, 1, 1, 1] @ (if extra = 0 then [] else [extra]) @ [1, 1, 1]"
    by (simp add: sleeps_def spec_transfer_def spec_nibble_def spec_pulse_def)
  ultimately show ?thesis
    by (simp add: spec_transfer_def)
qed

theorem write_delays_witness:
  "snd (constructor (\<lambda>p. True) README_config []) = spec_opens README_config [11, 12, 15, 16]
        @ spec_transfer (new_lcd README_config [11, 12, 15, 16]) 0x33 False 1 4100
        @ spec_transfer (new_lcd README_config [11, 12, 15, 16]) 0x32 False 1 100
        @ spec_transfer (new_lcd README_config [11, 12, 15, 16]) 0x0C False 50 0
        @ spec_transfer (new_lcd README_config [11, 12, 15, 16]) 0x28 False 50 0
        @ spec_transfer (new_lcd README_config [11, 12, 15, 16]) 0x06 False 50 0
        @ spec_transfer (new_lcd README_config [11, 12, 15, 16]) 0x01 False 50 0"
  using write_delays [where ok = "\<lambda>p. True" and c = README_config and ps = "[11, 12, 15, 16]"
      and g = "[]", THEN conjunct1]
  by (simp add: README_config_def)

text \<open>C7, as claimed: a configuration with non-positive geometry, or with a data-pin
  list whose length is not 4, is rejected before any hardware write. Both fail: with zero
  columns and a negative row count, and with five data pins, the constructor returns the
  object and has written to the pins.\<close>

theorem constructor_accepts_malformed_counterexample:
  "config_lcdColumns nonpositive_config \<le> 0 \<and> config_lcdRows nonpositive_config \<le> 0
   \<and> fst (constructor (\<lambda>p. True) nonpositive_config []) =
       Inr (new_lcd nonpositive_config [11, 12, 15, 16])
   \<and> list_ex is_Write (snd (constructor (\<lambda>p. True) nonpositive_config []))
   \<and> config_pinsData five_pins_config = Some [11, 12, 15, 16, 7]
   \<and> fst (constructor (\<lambda>p. True) five_pins_config []) =
       Inr (new_lcd five_pins_config [11, 12, 15, 16, 7])
   \<and> list_ex is_Write (snd (constructor (\<lambda>p. True) five_pins_config []))"
proof -
  have w: "list_ex is_Write (g @ os @ spec_transfer t v rs ww iw @ rest)" for g os t v rs ww iw rest
    by (simp add: spec_transfer_def)
  have "constructor (\<lambda>p. True) nonpositive_config [] =
     (Inr (new_lcd nonpositive_config [11, 12, 15, 16]),
      [] @ spec_opens nonpositive_config [11, 12, 15, 16]
        @ spec_transfer (new_lcd nonpositive_config [11, 12, 15, 16]) 0x33 False 1 4100
        @ spec_transfer (new_lcd nonpositive_config [11, 12, 15, 16]) 0x32 False 1 100
        @ spec_transfer (new_lcd nonpositive_config [11, 12, 15, 16]) 0x0C False 50 0
        @ spec_transfer (new_lcd nonpositive_config [11, 12, 15, 16]) 0x28 False 50 0
        @ spec_transfer (new_lcd nonpositive_config [11, 12, 15, 16]) 0x06 False 50 0
        @ spec_transfer (new_lcd nonpositive_config [11, 12, 15, 16]) 0x01 False 50 0)"
    by (rule constructor_success) (simp_all add: nonpositive_config_def)
  moreover have "constructor (\<lambda>p. True) five_pins_config [] =
     (Inr (new_lcd five_pins_config [11, 12, 15, 16, 7]),
      [] @ spec_opens five_pins_config [11, 12, 15, 16, 7]
        @ spec_transfer (new_lcd five_pins_config [11, 12, 15, 16, 7]) 0x33 False 1 4100
        @ spec_transfer (new_lcd five_pins_config [11, 12, 15, 16, 7]) 0x32 False 1 100
        @ spec_transfer (new_lcd five_pins_config [11, 12, 15, 16, 7]) 0x0C False 50 0
        @ spec_transfer (new_lcd five_pins_config [11, 12, 15, 16, 7]) 0x28 False 50 0
        @ spec_transfer (new_lcd five_pins_config [11, 12, 15, 16, 7]) 0x06 False 50 0
        @ spec_transfer (new_lcd five_pins_config [11, 12, 15, 16, 7]) 0x01 False 50 0)"
    by (rule constructor_success) (simp_all add: five_pins_config_def)
  ultimately show ?thesis
    using w by (simp add: nonpositive_config_def five_pins_config_def)
qed

text \<open>C7, amended. The constructor validates nothing itself. When \<^verbatim>\<open>rpio.open\<close> rejects
  the register-select pin, the enable pin or one of the data pins, or when the data-pin
  list is absent, it throws, and has appended only \<^verbatim>\<open>rpio.open\<close> calls to the log: no
  write and no delay. When the register-select and enable pins are present,
  \<^verbatim>\<open>rpio.open\<close> accepts every pin and the data-pin list has at least 4 pins, it returns
  the object and issues the whole initialization sequence, whatever the geometry and
  whether the list has 4 pins or more. Nothing is stated for a data-pin list of fewer than
  4 pins.\<close>

theorem constructor_rejects_only_at_pin_setup:
  "(\<not> ok (config_pinRs c) \<or> \<not> ok (config_pinEnable c) \<or> config_pinsData c = None
       \<or> (\<exists>ps. config_pinsData c = Some ps \<and> \<not> list_all (\<lambda>p. ok (Some p)) ps) \<longrightarrow>
      (\<exists>e es. constructor ok c g = (Inl e, g @ es) \<and> list_all is_Open es))
   \<and> (config_pinRs c \<noteq> None \<and> config_pinEnable c \<noteq> None
       \<and> ok (config_pinRs c) \<and> ok (config_pinEnable c) \<and> config_pinsData c = Some ps
       \<and> 4 \<le> length ps \<and> list_all (\<lambda>p. ok (Some p)) ps \<longrightarrow>
      constructor ok c g =
        (Inr (new_lcd c ps),
         g @ spec_opens c ps
           @ spec_transfer (new_lcd c ps) 0x33 False 1 4100
           @ spec_transfer (new_lcd c ps) 0x32 False 1 100
           @ spec_transfer (new_lcd c ps) 0x0C False 50 0
           @ spec_transfer (new_lcd c ps) 0x28 False 50 0
           @ spec_transfer (new_lcd c ps) 0x06 False 50 0
           @ spec_transfer (new_lcd c ps) 0x01 False 50 0))"
proof -
  have "\<exists>e es. constructor ok c g = (Inl e, g @ es) \<and> list_all is_Open es"
    if "\<not> ok (config_pinRs c) \<or> \<not> ok (config_pinEnable c) \<or> config_pinsData c = None
       \<or> (\<exists>ps. config_pinsData c = Some ps \<and> \<not> list_all (\<lambda>p. ok (Some p)) ps)"
    using constructor_failure [OF that, of g] by blast
  moreover have "constructor ok c g =
        (Inr (new_lcd c ps),
         g @ spec_opens c ps
           @ spec_transfer (new_lcd c ps) 0x33 False 1 4100
           @ spec_transfer (new_lcd c ps) 0x32 False 1 100
           @ spec_transfer (new_lcd c ps) 0x0C False 50 0
           @ spec_transfer (new_lcd c ps) 0x28 False 50 0
           @ spec_transfer (new_lcd c ps) 0x06 False 50 0
           @ spec_transfer (new_lcd c ps) 0x01 False 50 0)"
    if "ok (config_pinRs c)" "ok (config_pinEnable c)" "config_pinsData c = Some ps"
      "list_all (\<lambda>p. ok (Some p)) ps"
    using that by (rule constructor_success)
  ultimately show ?thesis by blast
qed

theorem constructor_rejects_only_at_pin_setup_witness:
  "(\<exists>e es. constructor (\<lambda>p. True) no_pins_config [Usleep 7] = (Inl e, [Usleep 7] @ es)
       \<and> list_all is_Open es)
   \<and> fst (constructor (\<lambda>p. True) nonpositive_config []) =
       Inr (new_lcd nonpositive_config [11, 12, 15, 16])
   \<and> fst (constructor (\<lambda>p. True) five_pins_config []) =
       Inr (new_lcd five_pins_config [11, 12, 15, 16, 7])"
proof -
  from constructor_rejects_only_at_pin_setup
    [where ok = "\<lambda>p. True" and c = no_pins_config and ps = "[11, 12, 15, 16]" and g = "[Usleep 7]", THEN conjunct1]
  have "\<exists>e es. constructor (\<lambda>p. True) no_pins_config [Usleep 7] = (Inl e, [Usleep 7] @ es)
       \<and> list_all is_Open es"
    by (simp add: no_pins_config_def)
  moreover from constructor_rejects_only_at_pin_setup
    [where ok = "\<lambda>p. True" and c = nonpositive_config and ps = "[11, 12, 15, 16]" and g = "[]", THEN conjunct2]
  have "fst (constructor (\<lambda>p. True) nonpositive_config []) =
       Inr (new_lcd nonpositive_config [11, 12, 15, 16])"
    by (simp add: nonpositive_config_def)
  moreover from constructor_rejects_only_at_pin_setup
    [where ok = "\<lambda>p. True" and c = five_pins_config and ps = "[11, 12, 15, 16, 7]" and g = "[]", THEN conjunct2]
  have "fst (constructor (\<lambda>p. True) five_pins_config []) =
       Inr (new_lcd five_pins_config [11, 12, 15, 16, 7])"
    by (simp add: five_pins_config_def)
  ultimately show ?thesis by blast
qed

text \<open>C8. If \<^verbatim>\<open>rpio.open\<close> rejects the register-select pin, the enable pin or one of
  the data pins, the constructor throws that error, and what it has appended to the log is
  pin configurations only: no instruction write was issued.\<close>

theorem constructor_aborts_on_gpio_failure:
  assumes "\<not> ok (config_pinRs c) \<or> \<not> ok (config_pinEnable c)
     \<or> (\<exists>ps. config_pinsData c = Some ps \<and> \<not> list_all (\<lambda>p. ok (Some p)) ps)"
  shows "fst (constructor ok c g) = Inl GpioError
     \<and> (\<exists>es. snd (constructor ok c g) = g @ es \<and> list_all is_Open es)"
proof -
  from assms have "\<not> ok (config_pinRs c) \<or> \<not> ok (config_pinEnable c) \<or> config_pinsData c = None
     \<or> (\<exists>ps. config_pinsData c = Some ps \<and> \<not> list_all (\<lambda>p. ok (Some p)) ps)"
    by blast
  from constructor_failure [OF this, of g] obtain e es where
    c: "constructor ok c g = (Inl e, g @ es)" and o: "list_all is_Open es"
    and t: "e = TypeError \<longleftrightarrow> ok (config_pinRs c) \<and> ok (config_pinEnable c) \<and> config_pinsData c = None"
    by blast
  from t assms have "e \<noteq> TypeError" by auto
  then have "e = GpioError" by (cases e) simp_all
  with c o show ?thesis by simp
qed

theorem constructor_aborts_on_gpio_failure_witness:
  "fst (constructor (\<lambda>p. p \<noteq> Some 12) README_config []) = Inl GpioError
   \<and> (\<exists>es. snd (constructor (\<lambda>p. p \<noteq> Some 12) README_config []) = [] @ es
         \<and> list_all is_Open es)"
  using constructor_aborts_on_gpio_failure [of "\<lambda>p. p \<noteq> Some 12" README_config "[]"]
  by (simp add: README_config_def)

text \<open>C9, as claimed: what is sent for a character other than the newline depends only
  on its ordinal modulo 256. U+20000 (the surrogate pair D840 DC00, one element of
  \<^verbatim>\<open>Array.from\<close>) and U+0100 have ordinals that agree modulo 256, but \<^verbatim>\<open>charCodeAt(0)\<close> of the
  first is its high surrogate 0xD840: the transfers are those of 0x40 and of 0x00.\<close>

theorem print_ordinal_counterexample:
  "Array_from [0xD840, 0xDC00] = [Pair 0xD840 0xDC00]
   \<and> Array_from [0x100] = [Unit 0x100]
   \<and> Pair 0xD840 0xDC00 \<noteq> newline \<and> Unit 0x100 \<noteq> newline
   \<and> spec_ordinal (Pair 0xD840 0xDC00) = 0x20000 \<and> spec_ordinal (Unit 0x100) = 0x100
   \<and> spec_ordinal (Pair 0xD840 0xDC00) mod 256 = spec_ordinal (Unit 0x100) mod 256
   \<and> gpio (print [0xD840, 0xDC00] README_world) =
       spec_transfer (obj README_world) 0x40 True 50 0
   \<and> gpio (print [0x100] README_world) = spec_transfer (obj README_world) 0x00 True 50 0
   \<and> gpio (print [0xD840, 0xDC00] README_world) \<noteq> gpio (print [0x100] README_world)"
proof -
  have a: "Array_from [0xD840, 0xDC00] = [Pair 0xD840 0xDC00]"
    "Array_from [0x100] = [Unit 0x100]"
    by (simp_all add: is_high_surrogate_def is_low_surrogate_def)
  have "spec_transfer (obj README_world) (charCodeAt0 (Pair 0xD840 0xDC00)) True 50 0 =
      spec_transfer (obj README_world) 0x40 True 50 0"
    by (rule spec_transfer_cong) simp
  then have p: "gpio (print [0xD840, 0xDC00] README_world) =
       spec_transfer (obj README_world) 0x40 True 50 0"
    unfolding print_def a
    by (simp add: newline_def gpio_write8Bits del: charCodeAt0.simps) (simp add: README_world_def)
  have "spec_transfer (obj README_world) (charCodeAt0 (Unit 0x100)) True 50 0 =
      spec_transfer (obj README_world) 0x00 True 50 0"
    by (rule spec_transfer_cong) simp
  then have q: "gpio (print [0x100] README_world) =
       spec_transfer (obj README_world) 0x00 True 50 0"
    unfolding print_def a
    by (simp add: newline_def gpio_write8Bits del: charCodeAt0.simps) (simp add: README_world_def)
  have "spec_nibble (obj README_world) 0x40 4 \<noteq> spec_nibble (obj README_world) 0x00 4"
    by (simp add: spec_nibble_def)
  then have "spec_transfer (obj README_world) 0x40 True 50 0 \<noteq>
      spec_transfer (obj README_world) 0x00 True 50 0"
    by (simp add: spec_transfer_def spec_nibble_def)
  with a p q show ?thesis
    by (simp add: spec_ordinal_def newline_def)
qed

text \<open>C9, amended. \<^verbatim>\<open>print\<close> handles the elements of \<^verbatim>\<open>Array.from(str)\<close> in order, and an
  element other than the newline is one data-mode transfer (register select high, settle
  delay 50, no extra delay) whose data-pin levels are the bits of its character code
  \<^verbatim>\<open>charCodeAt(0)\<close> modulo 256. So two strings that have their newlines at the same places
  and whose other elements have character codes that agree modulo 256 print alike. The
  character code is the ordinal for an element of one code unit, and the high surrogate
  for a surrogate pair.\<close>

theorem print_sends_low_bytes:
  "print str w =
     fold (\<lambda>k w. if Array_from str ! k = newline
                  then setCursor 0 (spec_currentRow (Array_from str) k + 1) w
                  else spec_data_write (charCodeAt0 (Array_from str ! k)) w)
       [0..<length (Array_from str)] w
   \<and> (map spec_low_byte (Array_from str) = map spec_low_byte (Array_from str') \<longrightarrow>
        print str w = print str' w)
   \<and> charCodeAt0 (Unit u) = spec_ordinal (Unit u)
   \<and> charCodeAt0 (Pair h l) = uint h"
proof -
  have "print str w =
     fold (\<lambda>k w. if Array_from str ! k = newline
                  then setCursor 0 (spec_currentRow (Array_from str) k + 1) w
                  else spec_data_write (charCodeAt0 (Array_from str ! k)) w)
       [0..<length (Array_from str)] w"
    unfolding print_def print_forEach_fold
    by (rule arg_cong [where f = "\<lambda>f. fold f _ w"]) (simp add: write8Bits_data fun_eq_iff)
  moreover have "print str w = print str' w"
    if "map spec_low_byte (Array_from str) = map spec_low_byte (Array_from str')"
    unfolding print_def using that by (rule print_forEach_low_byte)
  ultimately show ?thesis
    by (simp add: spec_ordinal_def)
qed

theorem print_sends_low_bytes_witness:
  "print [0x48, 0x141] README_world = print [0x48, 0x41] README_world
   \<and> print [0x141] README_world = spec_data_write 0x141 README_world"
proof -
  have "map spec_low_byte (Array_from [0x48, 0x141]) = map spec_low_byte (Array_from [0x48, 0x41])"
    by (simp add: spec_low_byte_def newline_def is_high_surrogate_def)
  with print_sends_low_bytes [of "[0x48, 0x141]" README_world "[0x48, 0x41]"]
  have "print [0x48, 0x141] README_world = print [0x48, 0x41] README_world"
    by blast
  moreover from print_sends_low_bytes [of "[0x141]" README_world]
  have "print [0x141] README_world = spec_data_write 0x141 README_world"
    by (simp add: newline_def)
  ultimately show ?thesis by blast
qed

text \<open>C10. \<^verbatim>\<open>clear\<close>, \<^verbatim>\<open>print\<close> and \<^verbatim>\<open>setCursor\<close> leave the object as it was, for every
  argument; and the object the constructor returns holds the five fields of the
  configuration.\<close>

theorem methods_preserve_fields:
  "obj (clear w) = obj w \<and> obj (print str w) = obj w \<and> obj (setCursor col row w) = obj w
   \<and> (fst (constructor ok c g) = Inr t \<longrightarrow>
        this_pinRs t = config_pinRs c \<and> this_pinEnable t = config_pinEnable c
        \<and> config_pinsData c = Some (this_pinsData t)
        \<and> this_lcdColumns t = config_lcdColumns c \<and> this_lcdRows t = config_lcdRows c)"
proof -
  have "this_pinRs t = config_pinRs c \<and> this_pinEnable t = config_pinEnable c
        \<and> config_pinsData c = Some (this_pinsData t)
        \<and> this_lcdColumns t = config_lcdColumns c \<and> this_lcdRows t = config_lcdRows c"
    if r: "fst (constructor ok c g) = Inr t"
  proof -
    from r have "\<not> (\<exists>e. fst (constructor ok c g) = Inl e)" by simp
    then obtain ps where "ok (config_pinRs c)" "ok (config_pinEnable c)"
      "config_pinsData c = Some ps" "list_all (\<lambda>p. ok (Some p)) ps"
      unfolding constructor_failure_iff by auto
    from constructor_success [OF this, of g] r have "t = new_lcd c ps" by simp
    with \<open>config_pinsData c = Some ps\<close> show ?thesis by (simp add: new_lcd_def)
  qed
  then show ?thesis
    by (simp add: print_def)
qed

theorem methods_preserve_fields_witness:
  "obj (setCursor 0 1 (print [0x48, 0x0A, 0x69] (clear README_world))) = obj README_world
   \<and> fst (constructor (\<lambda>p. True) README_config []) = Inr (obj README_world)"
proof -
  have "fst (constructor (\<lambda>p. True) README_config []) = Inr (new_lcd README_config [11, 12, 15, 16])"
    using constructor_success [of "\<lambda>p. True" README_config "[11, 12, 15, 16]" "[]"]
    by (simp add: README_config_def)
  with methods_preserve_fields [of "README_world" "[0x48, 0x0A, 0x69]" 0 1 "\<lambda>p. True"
      README_config "[]" "new_lcd README_config [11, 12, 15, 16]"]
    methods_preserve_fields [of "clear README_world" "[0x48, 0x0A, 0x69]" 0 1]
    methods_preserve_fields [of "print [0x48, 0x0A, 0x69] (clear README_world)" "[]" 0 1]
  show ?thesis by (simp add: README_world_def)
qed

end
